theory Spec2Isabelle
  imports Main "HOL-Library.Word"
begin

section \<open>The SIL optimization driver (tools/sil-opt/SILOpt.cpp)\<close>

text \<open>
  The driver reads a SIL file or a serialized module, optionally installs the diagnostic
  verifier, runs either a predefined group of passes or the passes listed on the command
  line, prints the resulting module and returns whether an error occurred.

  The embedding follows \<^verbatim>\<open>SILOpt.cpp\<close> statement by statement. Collaborators whose
  bodies live in other files of the compiler (the front end, the pass manager's
  \<^verbatim>\<open>run\<close>, the two preset pipelines, the diagnostic verifier) are fields of an
  environment record; every call the driver makes on them is recorded, in program order,
  in a trace.
\<close>

subsection \<open>Enumerations\<close>

text \<open>\<^verbatim>\<open>enum class PassKind\<close>, in declaration order.\<close>

datatype PassKind =
    AllocBoxToStack
  | CapturePromotion
  | DiagnosticCCP
  | PerformanceCCP
  | CSE
  | DefiniteInit
  | NoReturn
  | DiagnoseUnreachable
  | DataflowDiagnostics
  | GlobalOpt
  | InOutDeshadowing
  | MandatoryInlining
  | PredictableMemoryOpt
  | SILCleanup
  | SILMem2Reg
  | SILCombine
  | SILDeadFunctionElimination
  | SILSpecialization
  | SILDevirt
  | SimplifyCFG
  | PerformanceInlining
  | CodeMotion
  | LowerAggregateInstrs
  | SROA
  | ARCOpts
  | StripDebugInfo
  | DeadObjectElimination
  | InstCount
  | AADumper
  | LoadStoreOpts
  | SILLinker
  | GlobalARCOpts
  | DCE
  | EnumSimplification

text \<open>\<^verbatim>\<open>enum class OptGroup\<close>.\<close>

datatype OptGroup = Unknown | Diagnostics | Performance

text \<open>
  The pass objects. Each constructor stands for the object returned by the factory
  function of the same name (declared in \<^verbatim>\<open>swift/SILPasses/Passes.h\<close>).
\<close>

datatype SILTransform =
    createAllocBoxToStack
  | createCapturePromotion
  | createDiagnosticConstantPropagation
  | createPerformanceConstantPropagation
  | createCSE
  | createNoReturnFolding
  | createDiagnoseUnreachable
  | createDefiniteInitialization
  | createEmitDFDiagnostics
  | createInOutDeshadowing
  | createGlobalOpt
  | createMandatoryInlining
  | createPredictableMemoryOptimizations
  | createSILCleanup
  | createMem2Reg
  | createSILCombine
  | createDeadFunctionElimination
  | createGenericSpecializer
  | createDevirtualization
  | createSimplifyCFG
  | createPerfInliner
  | createCodeMotion
  | createLowerAggregate
  | createSROA
  | createARCOpts
  | createStripDebug
  | createDeadObjectElimination
  | createSILInstCount
  | createSILAADumper
  | createLoadStoreOpts
  | createSILLinker
  | createGlobalARCOpts
  | createDCE
  | createEnumSimplification

text \<open>The analyses registered by the driver, named after their factory functions.\<close>

datatype SILAnalysis =
    createCallGraphAnalysis
  | createAliasAnalysis
  | createDominanceAnalysis

subsection \<open>Options\<close>

text \<open>
  The fields of \<^verbatim>\<open>SILOptions\<close> that the driver assigns. The three numeric
  options are \<^verbatim>\<open>cl::opt<unsigned>\<close>, hence 32-bit words.
\<close>

record SILOptions =
  InlineThreshold :: "32 word"
  DevirtThreshold :: "32 word"
  VerifyAll :: bool
  PrintAll :: bool
  RemoveRuntimeAsserts :: bool
  AssertConfig :: "32 word"

text \<open>
  The parsed command line. An option that has an initial value is \<open>None\<close> when the
  caller did not give it; \<open>cl_opt\<close> then yields the value of its \<^verbatim>\<open>cl::init\<close>
  (a \<^verbatim>\<open>cl::opt<bool>\<close> without \<^verbatim>\<open>cl::init\<close> starts as false). The options
  that only configure paths, the target and the module name do not influence the control
  flow of the driver and are left out.
\<close>

record CommandLine =
  OptimizationGroup_arg :: "OptGroup option"
  Passes :: "PassKind list"
  VerifyMode_arg :: "bool option"
  AssertConfId_arg :: "32 word option"
  SILInlineThreshold_arg :: "32 word option"
  SILDevirtThreshold_arg :: "32 word option"
  EnableSILVerifyAll_arg :: "bool option"
  RemoveRuntimeAsserts_arg :: "bool option"
  EnableSILPrintAll_arg :: "bool option"
  EmitVerboseSIL_arg :: "bool option"
  EnableSILSortOutput_arg :: "bool option"

definition cl_opt :: "'a \<Rightarrow> 'a option \<Rightarrow> 'a" where
  "cl_opt init arg = (case arg of None \<Rightarrow> init | Some v \<Rightarrow> v)"

definition OptimizationGroup :: "CommandLine \<Rightarrow> OptGroup" where
  "OptimizationGroup cl = cl_opt Unknown (OptimizationGroup_arg cl)"

definition VerifyMode :: "CommandLine \<Rightarrow> bool" where
  "VerifyMode cl = cl_opt False (VerifyMode_arg cl)"

definition AssertConfId :: "CommandLine \<Rightarrow> 32 word" where
  "AssertConfId cl = cl_opt 0 (AssertConfId_arg cl)"

definition SILInlineThreshold :: "CommandLine \<Rightarrow> 32 word" where
  "SILInlineThreshold cl = cl_opt 50 (SILInlineThreshold_arg cl)"

definition SILDevirtThreshold :: "CommandLine \<Rightarrow> 32 word" where
  "SILDevirtThreshold cl = cl_opt 0 (SILDevirtThreshold_arg cl)"

definition EnableSILVerifyAll :: "CommandLine \<Rightarrow> bool" where
  "EnableSILVerifyAll cl = cl_opt True (EnableSILVerifyAll_arg cl)"

definition RemoveRuntimeAsserts_opt :: "CommandLine \<Rightarrow> bool" where
  "RemoveRuntimeAsserts_opt cl = cl_opt False (RemoveRuntimeAsserts_arg cl)"

definition EnableSILPrintAll :: "CommandLine \<Rightarrow> bool" where
  "EnableSILPrintAll cl = cl_opt False (EnableSILPrintAll_arg cl)"

definition EmitVerboseSIL :: "CommandLine \<Rightarrow> bool" where
  "EmitVerboseSIL cl = cl_opt False (EmitVerboseSIL_arg cl)"

definition EnableSILSortOutput :: "CommandLine \<Rightarrow> bool" where
  "EnableSILSortOutput cl = cl_opt False (EnableSILSortOutput_arg cl)"

text \<open>Lines 483 to 489 of \<^verbatim>\<open>main\<close>: the options handed to the pipeline.\<close>

definition SILOpts :: "CommandLine \<Rightarrow> SILOptions" where
  "SILOpts cl =
     \<lparr> InlineThreshold = SILInlineThreshold cl,
       DevirtThreshold = SILDevirtThreshold cl,
       VerifyAll = EnableSILVerifyAll cl,
       PrintAll = EnableSILPrintAll cl,
       RemoveRuntimeAsserts = RemoveRuntimeAsserts_opt cl,
       AssertConfig = AssertConfId cl \<rparr>"

subsection \<open>Diagnostics\<close>

datatype Severity = Error | Warning | Note

record DiagnosticRecord =
  severity :: Severity
  sourceLocation :: nat
  message :: string

subsection \<open>The pass manager as the driver uses it\<close>

text \<open>
  Modelled from the spec: the class \<^verbatim>\<open>SILPassManager\<close> is declared in
  \<^verbatim>\<open>swift/SILPasses/PassManager.h\<close>, which is not part of the source at hand. The
  specification describes it as holding "an ordered sequence of pass instances plus the
  analysis cache and module reference"; \<^verbatim>\<open>registerAnalysis\<close> and \<^verbatim>\<open>add\<close>
  append to the respective sequence.
\<close>

record 'm SILPassManager =
  Mod :: 'm
  Options :: SILOptions
  Analyses :: "SILAnalysis list"
  Transformations :: "SILTransform list"

text \<open>The calls the driver makes on its collaborators, as they appear in a trace.\<close>

datatype 'm Event =
    EvSetup
  | EvPerformSema
  | EvGetAll
  | EvEnableDiagnosticVerifier
  | EvRunSILDiagnosticPasses 'm SILOptions
  | EvRunSILOptimizationPasses 'm SILOptions
  | EvRegisterAnalysis SILAnalysis
  | EvAdd SILTransform
  | EvRun "'m SILPassManager"
  | EvOpenOutput bool
  | EvPrint 'm bool bool
  | EvVerifyDiagnostics

type_synonym 'm PMState = "'m SILPassManager \<times> 'm Event list"

definition SILPassManager_new :: "'m \<Rightarrow> SILOptions \<Rightarrow> 'm SILPassManager" where
  "SILPassManager_new M opts =
     \<lparr> Mod = M, Options = opts, Analyses = [], Transformations = [] \<rparr>"

definition registerAnalysis :: "SILAnalysis \<Rightarrow> 'm PMState \<Rightarrow> 'm PMState" where
  "registerAnalysis A s =
     (case s of (PM, tr) \<Rightarrow>
        (PM\<lparr>Analyses := Analyses PM @ [A]\<rparr>, tr @ [EvRegisterAnalysis A]))"

definition add :: "SILTransform \<Rightarrow> 'm PMState \<Rightarrow> 'm PMState" where
  "add T s =
     (case s of (PM, tr) \<Rightarrow>
        (PM\<lparr>Transformations := Transformations PM @ [T]\<rparr>, tr @ [EvAdd T]))"

subsection \<open>runCommandLineSelectedPasses\<close>

text \<open>
  The \<^verbatim>\<open>switch (Pass)\<close> of lines 286 to 389: one entry per \<^verbatim>\<open>case\<close> label,
  in source order, with the factory whose result that case adds. The switch has no
  \<^verbatim>\<open>default\<close>: a value that matches no label adds nothing.
\<close>

definition PassSwitch :: "(PassKind \<times> SILTransform) list" where
  "PassSwitch =
    [ (AllocBoxToStack, createAllocBoxToStack),
      (CapturePromotion, createCapturePromotion),
      (DiagnosticCCP, createDiagnosticConstantPropagation),
      (PerformanceCCP, createPerformanceConstantPropagation),
      (CSE, createCSE),
      (NoReturn, createNoReturnFolding),
      (DiagnoseUnreachable, createDiagnoseUnreachable),
      (DefiniteInit, createDefiniteInitialization),
      (DataflowDiagnostics, createEmitDFDiagnostics),
      (InOutDeshadowing, createInOutDeshadowing),
      (GlobalOpt, createGlobalOpt),
      (MandatoryInlining, createMandatoryInlining),
      (PredictableMemoryOpt, createPredictableMemoryOptimizations),
      (SILCleanup, createSILCleanup),
      (SILMem2Reg, createMem2Reg),
      (SILCombine, createSILCombine),
      (SILDeadFunctionElimination, createDeadFunctionElimination),
      (SILSpecialization, createGenericSpecializer),
      (SILDevirt, createDevirtualization),
      (SimplifyCFG, createSimplifyCFG),
      (PerformanceInlining, createPerfInliner),
      (CodeMotion, createCodeMotion),
      (LowerAggregateInstrs, createLowerAggregate),
      (SROA, createSROA),
      (ARCOpts, createARCOpts),
      (StripDebugInfo, createStripDebug),
      (DeadObjectElimination, createDeadObjectElimination),
      (InstCount, createSILInstCount),
      (AADumper, createSILAADumper),
      (LoadStoreOpts, createLoadStoreOpts),
      (SILLinker, createSILLinker),
      (GlobalARCOpts, createGlobalARCOpts),
      (DCE, createDCE),
      (EnumSimplification, createEnumSimplification) ]"

text \<open>The factories invoked for one value of the enumeration: those of the matching cases.\<close>

definition casesFor :: "PassKind \<Rightarrow> SILTransform list" where
  "casesFor Pass = map snd (filter (\<lambda>c. fst c = Pass) PassSwitch)"

text \<open>One execution of the switch: the first matching case runs, then \<^verbatim>\<open>break\<close>.\<close>

definition switchPass :: "PassKind \<Rightarrow> 'm PMState \<Rightarrow> 'm PMState" where
  "switchPass Pass s =
     (case map_of PassSwitch Pass of
        Some T \<Rightarrow> add T s
      | None \<Rightarrow> s)"

text \<open>\<^verbatim>\<open>for (auto Pass : Passes)\<close>.\<close>

primrec addPasses :: "PassKind list \<Rightarrow> 'm PMState \<Rightarrow> 'm PMState" where
  "addPasses [] s = s"
| "addPasses (Pass # rest) s = addPasses rest (switchPass Pass s)"

text \<open>
  The function up to the call of \<^verbatim>\<open>PM.run()\<close>: the pass manager that is run and
  the trace extended by the calls made while building it.
\<close>

definition buildPassManager ::
  "PassKind list \<Rightarrow> 'm \<Rightarrow> SILOptions \<Rightarrow> 'm Event list \<Rightarrow> 'm PMState" where
  "buildPassManager ps Module opts tr =
     addPasses ps
       (registerAnalysis createDominanceAnalysis
         (registerAnalysis createAliasAnalysis
           (registerAnalysis createCallGraphAnalysis
             (SILPassManager_new Module opts, tr))))"

subsection \<open>The compiler instance and the collaborators\<close>

text \<open>
  What the driver observes of the \<^verbatim>\<open>CompilerInstance\<close>: the SIL module (a null
  pointer is \<open>None\<close>), the diagnostics emitted so far, the diagnostics buffered by the
  verifier since it was installed (\<open>None\<close> while it is not installed), and the trace
  of calls.
\<close>

record 'm World =
  SILModule :: "'m option"
  Diags :: "DiagnosticRecord list"
  Buffered :: "DiagnosticRecord list option"
  Trace :: "'m Event list"

text \<open>
  The collaborators. \<open>performSema\<close> yields the SIL module that parsing created, if any,
  and the diagnostics it emitted; \<open>getAll\<close> is the module obtained from
  \<^verbatim>\<open>createEmptyModule\<close> once the serialized SIL loader has read everything into it.
  The three pipelines return the module as they leave it and the diagnostics they
  emitted. The boolean fields say whether the respective call reports failure.
\<close>

record 'm Environment =
  getFileOrSTDIN_fails :: bool
  isSerializedAST :: bool
  setup_fails :: bool
  performSema :: "'m option \<times> DiagnosticRecord list"
  getAll :: 'm
  runSILDiagnosticPasses :: "'m \<Rightarrow> SILOptions \<Rightarrow> 'm \<times> DiagnosticRecord list"
  runSILOptimizationPasses :: "'m \<Rightarrow> SILOptions \<Rightarrow> 'm \<times> DiagnosticRecord list"
  PM_run :: "'m SILPassManager \<Rightarrow> 'm \<times> DiagnosticRecord list"
  raw_fd_ostream_fails :: bool
  verifyDiagnostics :: "DiagnosticRecord list \<Rightarrow> bool"

definition isError :: "DiagnosticRecord \<Rightarrow> bool" where
  "isError d = (severity d = Error)"

text \<open>
  Modelled from the spec: \<^verbatim>\<open>ASTContext::hadError\<close> is defined outside the source at
  hand. The specification describes the flag as "whether any error-severity diagnostic
  was emitted".
\<close>

definition hadError :: "'m World \<Rightarrow> bool" where
  "hadError w = list_ex isError (Diags w)"

definition emit :: "'m Event \<Rightarrow> 'm World \<Rightarrow> 'm World" where
  "emit e w = w\<lparr>Trace := Trace w @ [e]\<rparr>"

text \<open>
  \<^verbatim>\<open>enableDiagnosticVerifier\<close> (line 481) installs the verifier's handler; from then
  on "all of the generated diagnostics" are buffered (comment of line 512).
\<close>

definition enableDiagnosticVerifier :: "'m World \<Rightarrow> 'm World" where
  "enableDiagnosticVerifier w = (emit EvEnableDiagnosticVerifier w)\<lparr>Buffered := Some []\<rparr>"

definition captured :: "'m World \<Rightarrow> DiagnosticRecord list" where
  "captured w = (case Buffered w of None \<Rightarrow> [] | Some ds \<Rightarrow> ds)"

text \<open>A pipeline mutates the module in place and may emit diagnostics.\<close>

definition afterPipeline :: "'m \<times> DiagnosticRecord list \<Rightarrow> 'm World \<Rightarrow> 'm World" where
  "afterPipeline r w =
     w\<lparr>SILModule := Some (fst r), Diags := Diags w @ snd r,
       Buffered := map_option (\<lambda>ds. ds @ snd r) (Buffered w)\<rparr>"

definition runCommandLineSelectedPasses ::
  "'m Environment \<Rightarrow> PassKind list \<Rightarrow> 'm \<Rightarrow> SILOptions \<Rightarrow> 'm World \<Rightarrow> 'm World" where
  "runCommandLineSelectedPasses env ps Module opts w =
     (case buildPassManager ps Module opts (Trace w) of
        (PM, tr) \<Rightarrow> afterPipeline (PM_run env PM) (w\<lparr>Trace := tr @ [EvRun PM]\<rparr>))"

subsection \<open>main\<close>

text \<open>The ways the process ends other than by returning from \<^verbatim>\<open>main\<close>.\<close>

datatype Abort = ExitCalled int | AssertionFailed | NullModule

text \<open>Lines 491 to 497: the choice between the two presets and the explicit list.\<close>

definition runSelected ::
  "CommandLine \<Rightarrow> 'm Environment \<Rightarrow> 'm \<Rightarrow> 'm World \<Rightarrow> 'm World" where
  "runSelected cl env M w =
     (if OptimizationGroup cl = Diagnostics then
        afterPipeline (runSILDiagnosticPasses env M (SILOpts cl))
          (emit (EvRunSILDiagnosticPasses M (SILOpts cl)) w)
      else if OptimizationGroup cl = Performance then
        afterPipeline (runSILOptimizationPasses env M (SILOpts cl))
          (emit (EvRunSILOptimizationPasses M (SILOpts cl)) w)
      else
        runCommandLineSelectedPasses env (Passes cl) M (SILOpts cl) w)"

text \<open>Lines 499 to 518: opening the output, printing the module, the result.\<close>

definition printAndReturn ::
  "CommandLine \<Rightarrow> 'm Environment \<Rightarrow> 'm World \<Rightarrow> (Abort + int) \<times> 'm World" where
  "printAndReturn cl env w =
     (let w1 = emit (EvOpenOutput (\<not> raw_fd_ostream_fails env)) w in
      if raw_fd_ostream_fails env then (Inr 1, w1)
      else
        (case SILModule w1 of
           None \<Rightarrow> (Inl NullModule, w1)
         | Some M \<Rightarrow>
             (let w2 = emit (EvPrint M (EmitVerboseSIL cl) (EnableSILSortOutput cl)) w1;
                  HadError = hadError w2
              in if VerifyMode cl then
                   (Inr (of_bool (verifyDiagnostics env (captured w2))),
                    emit EvVerifyDiagnostics w2)
                 else (Inr (of_bool HadError), w2))))"

text \<open>
  \<^verbatim>\<open>main\<close>. The result is the value returned (or the way the process ended) and the
  final state. \<^verbatim>\<open>exit(-1)\<close> after a failure to open the input, the three
  \<^verbatim>\<open>return 1\<close>, the assertion of line 470 and the dereferences of
  \<^verbatim>\<open>CI.getSILModule()\<close> are branches of their own.
\<close>

definition main :: "CommandLine \<Rightarrow> 'm Environment \<Rightarrow> (Abort + int) \<times> 'm World" where
  "main cl env =
     (let w0 = \<lparr> SILModule = None, Diags = [], Buffered = None, Trace = [] \<rparr> in
      if getFileOrSTDIN_fails env then (Inl (ExitCalled (- 1)), w0)
      else
        (let IsModule = isSerializedAST env;
             w1 = emit EvSetup w0
         in if setup_fails env then (Inr 1, w1)
            else
              (let w2 = (emit EvPerformSema w1)
                          \<lparr>SILModule := fst (performSema env),
                           Diags := Diags w1 @ snd (performSema env)\<rparr>
               in if hadError w2 then (Inr 1, w2)
                  else if IsModule \<and> SILModule w2 \<noteq> None then (Inl AssertionFailed, w2)
                  else
                    (let w3 = (if IsModule
                               then (emit EvGetAll w2)\<lparr>SILModule := Some (getAll env)\<rparr>
                               else w2);
                         w4 = (if VerifyMode cl
                               then enableDiagnosticVerifier w3 else w3)
                     in case SILModule w4 of
                          None \<Rightarrow> (Inl NullModule, w4)
                        | Some M \<Rightarrow> printAndReturn cl env (runSelected cl env M w4)))))"

subsection \<open>Observations on a run\<close>

text \<open>The events by which passes are selected, configured or run.\<close>

fun isPassEvent :: "'m Event \<Rightarrow> bool" where
  "isPassEvent (EvRunSILDiagnosticPasses M opts) = True"
| "isPassEvent (EvRunSILOptimizationPasses M opts) = True"
| "isPassEvent (EvRegisterAnalysis A) = True"
| "isPassEvent (EvAdd T) = True"
| "isPassEvent (EvRun PM) = True"
| "isPassEvent e = False"

definition PassEvents :: "'m World \<Rightarrow> 'm Event list" where
  "PassEvents w = filter isPassEvent (Trace w)"

fun isPrintEvent :: "'m Event \<Rightarrow> bool" where
  "isPrintEvent (EvPrint M verbose sortOutput) = True"
| "isPrintEvent e = False"

fun isAddEvent :: "'m Event \<Rightarrow> bool" where
  "isAddEvent (EvAdd T) = True"
| "isAddEvent e = False"

text \<open>The options an event hands to a pass manager, if it hands any.\<close>

fun handedOptions :: "'m Event \<Rightarrow> SILOptions option" where
  "handedOptions (EvRunSILDiagnosticPasses M opts) = Some opts"
| "handedOptions (EvRunSILOptimizationPasses M opts) = Some opts"
| "handedOptions (EvRun PM) = Some (Options PM)"
| "handedOptions e = None"

text \<open>The module the pipeline starts from, when the driver gets that far.\<close>

definition loadedModule :: "'m Environment \<Rightarrow> 'm option" where
  "loadedModule env =
     (if isSerializedAST env then Some (getAll env) else fst (performSema env))"

text \<open>
  The path condition of line 491: the input was read, the set-up succeeded, semantic
  analysis emitted no error, and a module is there (for a serialized module, parsing
  created none and the loader supplied it).
\<close>

definition reachesPipeline :: "'m Environment \<Rightarrow> bool" where
  "reachesPipeline env \<longleftrightarrow>
     \<not> getFileOrSTDIN_fails env \<and> \<not> setup_fails env \<and>
     \<not> list_ex isError (snd (performSema env)) \<and>
     (if isSerializedAST env then fst (performSema env) = None
      else fst (performSema env) \<noteq> None)"

text \<open>The call by which a preset group is run.\<close>

definition presetEvent :: "OptGroup \<Rightarrow> 'm \<Rightarrow> SILOptions \<Rightarrow> 'm Event" where
  "presetEvent g M opts =
     (if g = Diagnostics then EvRunSILDiagnosticPasses M opts
      else EvRunSILOptimizationPasses M opts)"

subsection \<open>The diagnostic verifier\<close>

text \<open>
  An expected diagnostic, parsed from an annotation of the input. The pattern language
  is left open: whether a message satisfies a pattern is a parameter \<open>sat\<close> below.
\<close>

record 'p ExpectedDiagnostic =
  expLocation :: nat
  expSeverity :: Severity
  expPattern :: 'p

definition matches ::
  "(string \<Rightarrow> 'p \<Rightarrow> bool) \<Rightarrow> DiagnosticRecord \<Rightarrow> 'p ExpectedDiagnostic \<Rightarrow> bool" where
  "matches sat a e \<longleftrightarrow>
     severity a = expSeverity e \<and> sourceLocation a = expLocation e \<and>
     sat (message a) (expPattern e)"

text \<open>The number of actual diagnostics, counted by position, that match an entry.\<close>

definition matchCount ::
  "(string \<Rightarrow> 'p \<Rightarrow> bool) \<Rightarrow> DiagnosticRecord list \<Rightarrow> 'p ExpectedDiagnostic \<Rightarrow> nat" where
  "matchCount sat actual e = length (filter (\<lambda>a. matches sat a e) actual)"

definition unmatchedExpected ::
  "(string \<Rightarrow> 'p \<Rightarrow> bool) \<Rightarrow> DiagnosticRecord list \<Rightarrow> 'p ExpectedDiagnostic list
     \<Rightarrow> 'p ExpectedDiagnostic list" where
  "unmatchedExpected sat actual expected =
     filter (\<lambda>e. matchCount sat actual e \<noteq> 1) expected"

definition unmatchedActual ::
  "(string \<Rightarrow> 'p \<Rightarrow> bool) \<Rightarrow> DiagnosticRecord list \<Rightarrow> 'p ExpectedDiagnostic list
     \<Rightarrow> DiagnosticRecord list" where
  "unmatchedActual sat actual expected =
     filter (\<lambda>a. \<not> list_ex (matches sat a) expected) actual"

datatype 'p VerificationFailure =
    UnmatchedExpected "'p ExpectedDiagnostic"
  | UnmatchedActual DiagnosticRecord

definition verificationFailures ::
  "(string \<Rightarrow> 'p \<Rightarrow> bool) \<Rightarrow> DiagnosticRecord list \<Rightarrow> 'p ExpectedDiagnostic list
     \<Rightarrow> 'p VerificationFailure list" where
  "verificationFailures sat actual expected =
     map UnmatchedExpected (unmatchedExpected sat actual expected) @
     map UnmatchedActual (unmatchedActual sat actual expected)"

text \<open>
  Modelled from the spec: the verifier behind \<^verbatim>\<open>verifyDiagnostics\<close> is defined in
  the front end, outside the source at hand. The specification gives
  \<^verbatim>\<open>verify(actual, expected) -> bool\<close>: unmatched expected entries and unmatched
  actual diagnostics are each reported as a failure of their own, and the verdict is
  "no unmatched expected AND no unmatched actual". An expected entry counts as matched
  when exactly one actual diagnostic matches it; the set of expected entries is given
  as a list.
\<close>

definition verify ::
  "(string \<Rightarrow> 'p \<Rightarrow> bool) \<Rightarrow> DiagnosticRecord list \<Rightarrow> 'p ExpectedDiagnostic list \<Rightarrow> bool" where
  "verify sat actual expected \<longleftrightarrow> verificationFailures sat actual expected = []"

text \<open>A pattern language for the examples: the pattern occurs in the message.\<close>

fun occursIn :: "string \<Rightarrow> string \<Rightarrow> bool" where
  "occursIn [] pat = (pat = [])"
| "occursIn (c # cs) pat = (take (length pat) (c # cs) = pat \<or> occursIn cs pat)"

subsection \<open>Example runs\<close>

text \<open>No option given, no pass listed.\<close>

definition noArguments :: CommandLine where
  "noArguments =
     \<lparr> OptimizationGroup_arg = None, Passes = [], VerifyMode_arg = None,
       AssertConfId_arg = None, SILInlineThreshold_arg = None,
       SILDevirtThreshold_arg = None, EnableSILVerifyAll_arg = None,
       RemoveRuntimeAsserts_arg = None, EnableSILPrintAll_arg = None,
       EmitVerboseSIL_arg = None, EnableSILSortOutput_arg = None \<rparr>"

definition uninitializedUse :: DiagnosticRecord where
  "uninitializedUse =
     \<lparr> severity = Error, sourceLocation = 2, message = ''variable used before being initialized'' \<rparr>"

definition expectUninitialized :: "string ExpectedDiagnostic" where
  "expectUninitialized =
     \<lparr> expLocation = 2, expSeverity = Error, expPattern = ''used before'' \<rparr>"

text \<open>
  A pass manager for the examples. Modules are numbers; running adds the number of
  passes to the module, and definite initialization reports one error.
\<close>

definition examplePMRun :: "nat SILPassManager \<Rightarrow> nat \<times> DiagnosticRecord list" where
  "examplePMRun PM =
     (Mod PM + length (Transformations PM),
      if createDefiniteInitialization \<in> set (Transformations PM)
      then [uninitializedUse] else [])"

definition examplePreset :: "nat \<Rightarrow> nat \<Rightarrow> SILOptions \<Rightarrow> nat \<times> DiagnosticRecord list" where
  "examplePreset n M opts = (M + n, [])"

definition exampleVerifier :: "DiagnosticRecord list \<Rightarrow> bool" where
  "exampleVerifier ds = (\<not> verify occursIn ds [expectUninitialized])"

text \<open>A textual SIL input without errors, annotated with one expected error.\<close>

definition exampleEnv :: "nat Environment" where
  "exampleEnv =
     \<lparr> getFileOrSTDIN_fails = False, isSerializedAST = False, setup_fails = False,
       performSema = (Some 0, []), getAll = 7,
       runSILDiagnosticPasses = examplePreset 100,
       runSILOptimizationPasses = examplePreset 200,
       PM_run = examplePMRun,
       raw_fd_ostream_fails = False,
       verifyDiagnostics = exampleVerifier \<rparr>"

text \<open>The same input, with an error found by semantic analysis.\<close>

definition semaErrorEnv :: "nat Environment" where
  "semaErrorEnv = exampleEnv\<lparr>performSema := (Some 0, [uninitializedUse])\<rparr>"

text \<open>The same input, with an output file that cannot be opened.\<close>

definition outputFailsEnv :: "nat Environment" where
  "outputFailsEnv = exampleEnv\<lparr>raw_fd_ostream_fails := True\<rparr>"

definition verifyArguments :: CommandLine where
  "verifyArguments = noArguments\<lparr>Passes := [DefiniteInit], VerifyMode_arg := Some True\<rparr>"

definition bothArguments :: CommandLine where
  "bothArguments =
     noArguments\<lparr>Passes := [DefiniteInit, DataflowDiagnostics],
                 OptimizationGroup_arg := Some Performance\<rparr>"

text \<open>The explicit list of the end-to-end scenario A.\<close>

definition scenarioA :: CommandLine where
  "scenarioA = noArguments\<lparr>Passes := [DefiniteInit, DataflowDiagnostics]\<rparr>"

text \<open>The state in which the pipeline of the examples starts.\<close>

definition startWorld :: "nat World" where
  "startWorld =
     \<lparr> SILModule = Some 0, Diags = [], Buffered = None, Trace = [EvSetup, EvPerformSema] \<rparr>"

text \<open>The calls made before the pipeline is chosen, on a run that gets that far.\<close>

definition prologue :: "CommandLine \<Rightarrow> 'm Environment \<Rightarrow> 'm Event list" where
  "prologue cl env =
     [EvSetup, EvPerformSema] @
     (if isSerializedAST env then [EvGetAll] else []) @
     (if VerifyMode cl then [EvEnableDiagnosticVerifier] else [])"

definition analysisEvents :: "'m Event list" where
  "analysisEvents =
     [EvRegisterAnalysis createCallGraphAnalysis,
      EvRegisterAnalysis createAliasAnalysis,
      EvRegisterAnalysis createDominanceAnalysis]"

section \<open>Properties\<close>

subsection \<open>Building the pass manager\<close>

lemma PassSwitch_covers: "\<exists>T. casesFor k = [T] \<and> map_of PassSwitch k = Some T"
  by (cases k) (simp_all add: casesFor_def PassSwitch_def)

lemma switchPass_adds: "\<exists>T. map_of PassSwitch k = Some T \<and> switchPass k s = add T s"
proof -
  obtain T where "map_of PassSwitch k = Some T"
    using PassSwitch_covers [of k] by blast
  then show ?thesis by (simp add: switchPass_def)
qed

lemma addPasses_spec:
  "\<exists>Ts. map Some Ts = map (map_of PassSwitch) ps \<and>
        addPasses ps (PM, tr) =
          (PM\<lparr>Transformations := Transformations PM @ Ts\<rparr>, tr @ map EvAdd Ts)"
proof (induction ps arbitrary: PM tr)
  case Nil
  show ?case by simp
next
  case (Cons k ks)
  obtain T where T: "map_of PassSwitch k = Some T" "switchPass k (PM, tr) = add T (PM, tr)"
    using switchPass_adds [of k "(PM, tr)"] by blast
  let ?PM' = "PM\<lparr>Transformations := Transformations PM @ [T]\<rparr>"
  obtain Ts where Ts: "map Some Ts = map (map_of PassSwitch) ks"
    "addPasses ks (?PM', tr @ [EvAdd T]) =
       (?PM'\<lparr>Transformations := Transformations ?PM' @ Ts\<rparr>, (tr @ [EvAdd T]) @ map EvAdd Ts)"
    using Cons.IH [of ?PM' "tr @ [EvAdd T]"] by blast
  have "map Some (T # Ts) = map (map_of PassSwitch) (k # ks)"
    using T(1) Ts(1) by simp
  moreover have "addPasses (k # ks) (PM, tr) =
      (PM\<lparr>Transformations := Transformations PM @ (T # Ts)\<rparr>, tr @ map EvAdd (T # Ts))"
    using T(2) Ts(2) by (simp add: add_def)
  ultimately show ?case by blast
qed

lemma buildPassManager_spec:
  "\<exists>Ts. map Some Ts = map (map_of PassSwitch) ps \<and>
        buildPassManager ps M opts tr =
          (\<lparr> Mod = M, Options = opts,
              Analyses = [createCallGraphAnalysis, createAliasAnalysis,
                          createDominanceAnalysis],
              Transformations = Ts \<rparr>,
           tr @ analysisEvents @ map EvAdd Ts)"
proof -
  let ?PM = "\<lparr> Mod = M, Options = opts,
              Analyses = [createCallGraphAnalysis, createAliasAnalysis,
                          createDominanceAnalysis],
              Transformations = [] \<rparr>"
  let ?tr = "tr @ analysisEvents"
  have b: "buildPassManager ps M opts tr = addPasses ps (?PM, ?tr)"
    by (simp add: buildPassManager_def registerAnalysis_def SILPassManager_new_def
        analysisEvents_def)
  obtain Ts where "map Some Ts = map (map_of PassSwitch) ps"
    "addPasses ps (?PM, ?tr) =
       (?PM\<lparr>Transformations := Transformations ?PM @ Ts\<rparr>, ?tr @ map EvAdd Ts)"
    using addPasses_spec [of ps ?PM ?tr] by blast
  then show ?thesis using b by auto
qed

subsection \<open>The shape of a run\<close>

lemma reaches_loaded: "reachesPipeline env \<Longrightarrow> \<exists>M. loadedModule env = Some M"
  by (auto simp: reachesPipeline_def loadedModule_def split: if_splits)

lemma main_reaches:
  assumes "reachesPipeline env" and "loadedModule env = Some M"
  shows "main cl env =
           printAndReturn cl env
             (runSelected cl env M
                \<lparr> SILModule = Some M, Diags = snd (performSema env),
                  Buffered = (if VerifyMode cl then Some [] else None),
                  Trace = prologue cl env \<rparr>)"
  using assms
  by (auto simp add: main_def reachesPipeline_def loadedModule_def Let_def emit_def
      enableDiagnosticVerifier_def hadError_def prologue_def)

lemma main_stops:
  assumes "\<not> reachesPipeline env"
  shows "filter isPassEvent (Trace (snd (main cl env))) = [] \<and>
         filter isPrintEvent (Trace (snd (main cl env))) = []"
  using assms
  by (auto simp add: main_def reachesPipeline_def Let_def emit_def hadError_def
      enableDiagnosticVerifier_def split: option.splits if_splits)

lemma runCommandLineSelectedPasses_spec:
  "\<exists>Ts. map Some Ts = map (map_of PassSwitch) ps \<and>
     runCommandLineSelectedPasses env ps M opts w =
       (let PM = \<lparr> Mod = M, Options = opts,
              Analyses = [createCallGraphAnalysis, createAliasAnalysis,
                          createDominanceAnalysis],
              Transformations = Ts \<rparr> in
        \<lparr> SILModule = Some (fst (PM_run env PM)), Diags = Diags w @ snd (PM_run env PM),
          Buffered = map_option (\<lambda>ds. ds @ snd (PM_run env PM)) (Buffered w),
          Trace = Trace w @ analysisEvents @ map EvAdd Ts @ [EvRun PM] \<rparr>)"
proof -
  obtain Ts where Ts: "map Some Ts = map (map_of PassSwitch) ps"
    "buildPassManager ps M opts (Trace w) =
          (\<lparr> Mod = M, Options = opts,
              Analyses = [createCallGraphAnalysis, createAliasAnalysis,
                          createDominanceAnalysis],
              Transformations = Ts \<rparr>,
           Trace w @ analysisEvents @ map EvAdd Ts)"
    using buildPassManager_spec [of ps M opts "Trace w"] by blast
  show ?thesis
    using Ts by (intro exI [of _ Ts]) (simp add: runCommandLineSelectedPasses_def afterPipeline_def Let_def)
qed

lemma filter_pass_prologue: "filter isPassEvent (prologue cl env) = []"
  by (simp add: prologue_def)

lemma filter_print_prologue: "filter isPrintEvent (prologue cl env) = []"
  by (simp add: prologue_def)

lemma printAndReturn_PassEvents:
  "filter isPassEvent (Trace (snd (printAndReturn cl env w))) = filter isPassEvent (Trace w)"
  by (simp add: printAndReturn_def Let_def emit_def split: option.splits)

lemma printAndReturn_Diags:
  "Diags (snd (printAndReturn cl env w)) = Diags w"
  by (simp add: printAndReturn_def Let_def emit_def split: option.splits)

lemma printAndReturn_SILModule:
  "SILModule (snd (printAndReturn cl env w)) = SILModule w"
  by (simp add: printAndReturn_def Let_def emit_def split: option.splits)

lemma printAndReturn_captured:
  "captured (snd (printAndReturn cl env w)) = captured w"
  by (simp add: printAndReturn_def Let_def emit_def captured_def split: option.splits)

lemma runSelected_preset:
  assumes "OptimizationGroup cl = g" "g \<noteq> Unknown"
  shows "runSelected cl env M w =
    (let r = (if g = Diagnostics then runSILDiagnosticPasses env else runSILOptimizationPasses env) M (SILOpts cl) in
     \<lparr> SILModule = Some (fst r), Diags = Diags w @ snd r,
       Buffered = map_option (\<lambda>ds. ds @ snd r) (Buffered w),
       Trace = Trace w @ [presetEvent g M (SILOpts cl)] \<rparr>)"
  using assms by (cases g) (simp_all add: runSelected_def afterPipeline_def emit_def presetEvent_def Let_def)

lemma runSelected_explicit:
  assumes "OptimizationGroup cl = Unknown"
  shows "runSelected cl env M w = runCommandLineSelectedPasses env (Passes cl) M (SILOpts cl) w"
  using assms by (simp add: runSelected_def)

lemma runSelected_SILModule: "\<exists>M'. SILModule (runSelected cl env M w) = Some M'"
  by (simp add: runSelected_def afterPipeline_def emit_def runCommandLineSelectedPasses_def split: prod.splits)

lemma Passes_irrelevant:
  "OptimizationGroup (cl\<lparr>Passes := ps\<rparr>) = OptimizationGroup cl"
  "SILOpts (cl\<lparr>Passes := ps\<rparr>) = SILOpts cl"
  "VerifyMode (cl\<lparr>Passes := ps\<rparr>) = VerifyMode cl"
  "EmitVerboseSIL (cl\<lparr>Passes := ps\<rparr>) = EmitVerboseSIL cl"
  "EnableSILSortOutput (cl\<lparr>Passes := ps\<rparr>) = EnableSILSortOutput cl"
  by (simp_all add: OptimizationGroup_def SILOpts_def VerifyMode_def EmitVerboseSIL_def EnableSILSortOutput_def
    SILInlineThreshold_def SILDevirtThreshold_def EnableSILVerifyAll_def EnableSILPrintAll_def RemoveRuntimeAsserts_opt_def AssertConfId_def)

lemma main_ignores_Passes:
  assumes "OptimizationGroup cl \<noteq> Unknown"
  shows "main (cl\<lparr>Passes := ps\<rparr>) env = main cl env"
proof -
  have p: "printAndReturn (cl\<lparr>Passes := ps\<rparr>) env w = printAndReturn cl env w" for w
    by (simp add: printAndReturn_def Passes_irrelevant Let_def cong: option.case_cong)
  have r: "runSelected (cl\<lparr>Passes := ps\<rparr>) env M w = runSelected cl env M w" for M w
    using assms by (cases "OptimizationGroup cl") (simp_all add: runSelected_def Passes_irrelevant)
  show ?thesis
    unfolding main_def p r Passes_irrelevant by (rule refl)
qed

lemma printAndReturn_result:
  assumes "\<not> raw_fd_ostream_fails env" and "SILModule w = Some M"
  shows "fst (printAndReturn cl env w) =
           Inr (of_bool (if VerifyMode cl then verifyDiagnostics env (captured w)
                         else list_ex isError (Diags w)))"
    and "filter isPrintEvent (Trace (snd (printAndReturn cl env w))) =
           filter isPrintEvent (Trace w) @ [EvPrint M (EmitVerboseSIL cl) (EnableSILSortOutput cl)]"
  using assms
  by (simp_all add: printAndReturn_def Let_def emit_def hadError_def captured_def)

lemma runSelected_prints:
  "filter isPrintEvent (Trace (runSelected cl env M w)) = filter isPrintEvent (Trace w)"
proof (cases "OptimizationGroup cl = Unknown")
  case True
  obtain Ts where "runCommandLineSelectedPasses env (Passes cl) M (SILOpts cl) w =
       (let PM = \<lparr> Mod = M, Options = SILOpts cl,
              Analyses = [createCallGraphAnalysis, createAliasAnalysis,
                          createDominanceAnalysis],
              Transformations = Ts \<rparr> in
        \<lparr> SILModule = Some (fst (PM_run env PM)), Diags = Diags w @ snd (PM_run env PM),
          Buffered = map_option (\<lambda>ds. ds @ snd (PM_run env PM)) (Buffered w),
          Trace = Trace w @ analysisEvents @ map EvAdd Ts @ [EvRun PM] \<rparr>)"
    using runCommandLineSelectedPasses_spec [of "Passes cl" env M "SILOpts cl" w] by blast
  moreover have "filter isPrintEvent (map EvAdd Ts) = []" for Ts :: "SILTransform list"
    by (induction Ts) simp_all
  ultimately show ?thesis
    using True by (simp add: runSelected_explicit Let_def analysisEvents_def)
next
  case False
  then show ?thesis
    by (simp add: runSelected_preset [OF refl False] Let_def presetEvent_def)
qed

subsection \<open>The options handed to the pipeline\<close>

lemma map_filter_append:
  "List.map_filter f (xs @ ys) = List.map_filter f xs @ List.map_filter f ys"
  by (simp add: List.map_filter_def)

lemma handedOptions_adds: "List.map_filter handedOptions (map EvAdd Ts) = []"
  by (induction Ts) simp_all

lemma handedOptions_prologue: "List.map_filter handedOptions (prologue cl env) = []"
  by (simp add: prologue_def)

lemma handedOptions_runSelected:
  "List.map_filter handedOptions (Trace (runSelected cl env M w)) =
     List.map_filter handedOptions (Trace w) @ [SILOpts cl]"
proof (cases "OptimizationGroup cl = Unknown")
  case True
  obtain Ts where "runCommandLineSelectedPasses env (Passes cl) M (SILOpts cl) w =
       (let PM = \<lparr> Mod = M, Options = SILOpts cl,
              Analyses = [createCallGraphAnalysis, createAliasAnalysis,
                          createDominanceAnalysis],
              Transformations = Ts \<rparr> in
        \<lparr> SILModule = Some (fst (PM_run env PM)), Diags = Diags w @ snd (PM_run env PM),
          Buffered = map_option (\<lambda>ds. ds @ snd (PM_run env PM)) (Buffered w),
          Trace = Trace w @ analysisEvents @ map EvAdd Ts @ [EvRun PM] \<rparr>)"
    using runCommandLineSelectedPasses_spec [of "Passes cl" env M "SILOpts cl" w] by blast
  then show ?thesis
    using True
    by (simp add: runSelected_explicit Let_def analysisEvents_def map_filter_append
        handedOptions_adds)
next
  case False
  then show ?thesis
    by (simp add: runSelected_preset [OF refl False] Let_def presetEvent_def map_filter_append)
qed

lemma handedOptions_printAndReturn:
  "List.map_filter handedOptions (Trace (snd (printAndReturn cl env w))) =
     List.map_filter handedOptions (Trace w)"
  by (simp add: printAndReturn_def Let_def emit_def map_filter_append
      split: option.splits)

lemma handedOptions_stops:
  assumes "\<not> reachesPipeline env"
  shows "List.map_filter handedOptions (Trace (snd (main cl env))) = []"
  using assms
  by (auto simp add: main_def reachesPipeline_def Let_def emit_def hadError_def
      enableDiagnosticVerifier_def split: option.splits if_splits)

lemma handedOptions_main:
  "List.map_filter handedOptions (Trace (snd (main cl env))) =
     (if reachesPipeline env then [SILOpts cl] else [])"
proof (cases "reachesPipeline env")
  case True
  then obtain M where M: "loadedModule env = Some M"
    using reaches_loaded by blast
  show ?thesis
    using True
    by (simp add: main_reaches [OF True M] handedOptions_printAndReturn
        handedOptions_runSelected handedOptions_prologue)
next
  case False
  then show ?thesis by (simp add: handedOptions_stops)
qed

subsection \<open>The example runs\<close>

lemmas driver_defs =
  main_def printAndReturn_def runSelected_def runCommandLineSelectedPasses_def
  buildPassManager_def registerAnalysis_def add_def SILPassManager_new_def switchPass_def
  PassSwitch_def afterPipeline_def emit_def enableDiagnosticVerifier_def captured_def
  hadError_def isError_def Let_def
  OptimizationGroup_def VerifyMode_def EmitVerboseSIL_def EnableSILSortOutput_def cl_opt_def

lemma exampleEnv_reaches: "reachesPipeline exampleEnv"
  by (simp add: reachesPipeline_def exampleEnv_def)

lemma exampleEnv_opens: "\<not> raw_fd_ostream_fails exampleEnv"
  by (simp add: exampleEnv_def)

lemma exampleVerifier_accepts: "exampleVerifier [uninitializedUse] = False"
  by (simp add: exampleVerifier_def verify_def verificationFailures_def unmatchedExpected_def
      unmatchedActual_def matchCount_def matches_def expectUninitialized_def uninitializedUse_def)

lemma run_verifyArguments:
  "fst (main verifyArguments exampleEnv) = Inr (of_bool (exampleVerifier [uninitializedUse]))"
  "Diags (snd (main verifyArguments exampleEnv)) = [uninitializedUse]"
  "captured (snd (main verifyArguments exampleEnv)) = [uninitializedUse]"
  by (simp_all add: driver_defs noArguments_def verifyArguments_def exampleEnv_def examplePMRun_def)

lemma run_scenarioA:
  "fst (main scenarioA exampleEnv) = Inr 1"
  "SILModule (snd (main scenarioA exampleEnv)) = Some 2"
  "Diags (snd (main scenarioA exampleEnv)) = [uninitializedUse]"
  by (simp_all add: driver_defs noArguments_def scenarioA_def exampleEnv_def examplePMRun_def uninitializedUse_def)

lemma run_scenarioA_trace:
  "Trace (snd (main scenarioA exampleEnv)) =
     [EvSetup, EvPerformSema,
      EvRegisterAnalysis createCallGraphAnalysis, EvRegisterAnalysis createAliasAnalysis,
      EvRegisterAnalysis createDominanceAnalysis, EvAdd createDefiniteInitialization,
      EvAdd createEmitDFDiagnostics,
      EvRun \<lparr> Mod = 0, Options = SILOpts scenarioA,
              Analyses = [createCallGraphAnalysis, createAliasAnalysis, createDominanceAnalysis],
              Transformations = [createDefiniteInitialization, createEmitDFDiagnostics] \<rparr>,
      EvOpenOutput True, EvPrint 2 False False]"
  by (simp add: driver_defs noArguments_def scenarioA_def exampleEnv_def examplePMRun_def uninitializedUse_def)

subsection \<open>The verifier\<close>

lemma count_one_iff:
  "length (filter P xs) = Suc 0 \<longleftrightarrow> (\<exists>!i. i < length xs \<and> P (xs ! i))"
proof -
  have "length (filter P xs) = card {i. i < length xs \<and> P (xs ! i)}"
    by (rule length_filter_conv_card)
  moreover have "card S = Suc 0 \<longleftrightarrow> (\<exists>!i. i \<in> S)" for S :: "nat set"
  proof -
    have "card S = Suc 0 \<longleftrightarrow> (\<exists>x. S = {x})"
      by (simp add: card_1_singleton_iff)
    also have "\<dots> \<longleftrightarrow> (\<exists>!i. i \<in> S)"
      by auto
    finally show ?thesis .
  qed
  ultimately show ?thesis by simp
qed

lemma unmatchedExpected_empty:
  "unmatchedExpected sat actual expected = [] \<longleftrightarrow>
     (\<forall>e \<in> set expected. \<exists>!i. i < length actual \<and> matches sat (actual ! i) e)"
  by (simp add: unmatchedExpected_def matchCount_def filter_empty_conv count_one_iff)

lemma unmatchedActual_empty:
  "unmatchedActual sat actual expected = [] \<longleftrightarrow>
     (\<forall>a \<in> set actual. \<exists>e \<in> set expected. matches sat a e)"
  by (simp add: unmatchedActual_def filter_empty_conv list_ex_iff)

lemmas verifier_defs =
  verify_def verificationFailures_def unmatchedExpected_def unmatchedActual_def
  matchCount_def matches_def expectUninitialized_def uninitializedUse_def

section \<open>The claims\<close>

subsection \<open>Selection of the pipeline\<close>

text \<open>
  C1. When a preset group (Diagnostics or Performance) is given together with an explicit
  list of passes, the group is honoured and the list is ignored: the result of the run
  does not depend on the list, no listed pass is added to a pass manager, and the only
  pipeline call of a run that gets as far as the pipeline is the call of the group's
  preset (a run that stops earlier makes none).
\<close>

theorem group_takes_precedence:
  assumes "OptimizationGroup cl = g" and "g \<noteq> Unknown"
  shows "main (cl\<lparr>Passes := ps\<rparr>) env = main cl env \<and>
         filter isAddEvent (Trace (snd (main cl env))) = [] \<and>
         (reachesPipeline env \<and> loadedModule env = Some M \<longrightarrow>
            PassEvents (snd (main cl env)) = [presetEvent g M (SILOpts cl)]) \<and>
         (\<not> reachesPipeline env \<longrightarrow> PassEvents (snd (main cl env)) = [])"
proof -
  have a: "main (cl\<lparr>Passes := ps\<rparr>) env = main cl env"
    using assms main_ignores_Passes by blast
  have c: "PassEvents (snd (main cl env)) = [presetEvent g M (SILOpts cl)]"
    if "reachesPipeline env" "loadedModule env = Some M"
    using that assms
    by (simp add: PassEvents_def main_reaches printAndReturn_PassEvents runSelected_preset Let_def
        filter_pass_prologue presetEvent_def)
  have d: "PassEvents (snd (main cl env)) = []" if "\<not> reachesPipeline env"
    using main_stops [OF that, of cl] by (simp add: PassEvents_def)
  have e0: "filter isAddEvent tr = filter isAddEvent (filter isPassEvent tr)" for tr :: "'a Event list"
  proof (induction tr)
    case Nil
    show ?case by simp
  next
    case (Cons x xs)
    then show ?case by (cases x) simp_all
  qed
  have e: "filter isAddEvent (Trace w) = filter isAddEvent (PassEvents w)" for w :: "'a World"
    unfolding PassEvents_def by (rule e0)
  have b: "filter isAddEvent (Trace (snd (main cl env))) = []"
  proof (cases "reachesPipeline env")
    case True
    then obtain M' where M': "loadedModule env = Some M'" using reaches_loaded by blast
    have "PassEvents (snd (main cl env)) = [presetEvent g M' (SILOpts cl)]"
      using True M' assms
      by (simp add: PassEvents_def main_reaches printAndReturn_PassEvents runSelected_preset Let_def
        filter_pass_prologue presetEvent_def)
    then show ?thesis by (simp add: e presetEvent_def)
  next
    case False
    then show ?thesis using d by (simp add: e)
  qed
  show ?thesis using a b c d by blast
qed

theorem group_takes_precedence_witness:
  "OptimizationGroup bothArguments = Performance \<and> Performance \<noteq> Unknown \<and>
   reachesPipeline exampleEnv \<and> loadedModule exampleEnv = Some 0 \<and>
   Passes bothArguments = [DefiniteInit, DataflowDiagnostics] \<and>
   main (bothArguments\<lparr>Passes := []\<rparr>) exampleEnv = main bothArguments exampleEnv \<and>
   filter isAddEvent (Trace (snd (main bothArguments exampleEnv))) = [] \<and>
   PassEvents (snd (main bothArguments exampleEnv)) =
     [EvRunSILOptimizationPasses 0 (SILOpts bothArguments)] \<and>
   \<not> reachesPipeline semaErrorEnv \<and>
   PassEvents (snd (main bothArguments semaErrorEnv)) = []"
proof -
  have g: "OptimizationGroup bothArguments = Performance"
    by (simp add: bothArguments_def noArguments_def OptimizationGroup_def cl_opt_def)
  have n: "Performance \<noteq> Unknown" by simp
  have r: "reachesPipeline exampleEnv"
    by (simp add: reachesPipeline_def exampleEnv_def)
  have l: "loadedModule exampleEnv = Some 0"
    by (simp add: loadedModule_def exampleEnv_def)
  have p: "Passes bothArguments = [DefiniteInit, DataflowDiagnostics]"
    by (simp add: bothArguments_def)
  have s: "\<not> reachesPipeline semaErrorEnv"
    by (simp add: reachesPipeline_def semaErrorEnv_def exampleEnv_def isError_def
        uninitializedUse_def)
  show ?thesis
    using group_takes_precedence [OF g n, of "[]" exampleEnv 0]
      group_takes_precedence [OF g n, of "[]" semaErrorEnv 0] g r l p s
    by (simp add: presetEvent_def)
qed

subsection \<open>Errors found before the pipeline\<close>

text \<open>
  C2. When the input was read, the set-up succeeded and semantic analysis emitted at
  least one diagnostic of severity error, the driver returns 1 at once: the trace ends
  with the call of semantic analysis, no pass is selected, added or run, and the module
  is as semantic analysis left it.
\<close>

theorem sema_error_runs_no_pass:
  assumes "\<not> getFileOrSTDIN_fails env" and "\<not> setup_fails env"
    and "list_ex isError (snd (performSema env))"
  shows "fst (main cl env) = Inr 1 \<and>
         Trace (snd (main cl env)) = [EvSetup, EvPerformSema] \<and>
         PassEvents (snd (main cl env)) = [] \<and>
         SILModule (snd (main cl env)) = fst (performSema env)"
  using assms
  by (simp add: main_def Let_def emit_def hadError_def PassEvents_def)

theorem sema_error_runs_no_pass_witness:
  "\<not> getFileOrSTDIN_fails semaErrorEnv \<and> \<not> setup_fails semaErrorEnv \<and>
   list_ex isError (snd (performSema semaErrorEnv)) \<and>
   fst (main noArguments semaErrorEnv) = Inr 1 \<and>
   Trace (snd (main noArguments semaErrorEnv)) = [EvSetup, EvPerformSema] \<and>
   PassEvents (snd (main noArguments semaErrorEnv)) = [] \<and>
   SILModule (snd (main noArguments semaErrorEnv)) = Some 0"
proof -
  have a: "\<not> getFileOrSTDIN_fails semaErrorEnv"
    by (simp add: semaErrorEnv_def exampleEnv_def)
  have b: "\<not> setup_fails semaErrorEnv"
    by (simp add: semaErrorEnv_def exampleEnv_def)
  have c: "list_ex isError (snd (performSema semaErrorEnv))"
    by (simp add: semaErrorEnv_def exampleEnv_def isError_def uninitializedUse_def)
  have d: "fst (performSema semaErrorEnv) = Some 0"
    by (simp add: semaErrorEnv_def exampleEnv_def)
  show ?thesis
    using sema_error_runs_no_pass [OF a b c, of noArguments] a b c d by simp
qed

subsection \<open>The result of a run\<close>

text \<open>
  C3, as stated, fails: in standard mode, with no pass listed and no diagnostic emitted
  at all, the pass manager runs to its end, the output file cannot be opened, and the
  driver returns 1 at line 505.
\<close>

theorem output_failure_returns_one_without_error:
  "\<not> VerifyMode noArguments \<and>
   PassEvents (snd (main noArguments outputFailsEnv)) =
     analysisEvents @
     [EvRun \<lparr> Mod = 0, Options = SILOpts noArguments,
              Analyses = [createCallGraphAnalysis, createAliasAnalysis,
                          createDominanceAnalysis],
              Transformations = [] \<rparr>] \<and>
   Diags (snd (main noArguments outputFailsEnv)) = [] \<and>
   fst (main noArguments outputFailsEnv) = Inr 1"
  by (simp add: driver_defs PassEvents_def analysisEvents_def noArguments_def
      outputFailsEnv_def exampleEnv_def examplePMRun_def)

text \<open>
  C3, amended. On a run that reaches the final \<^verbatim>\<open>return\<close> (it gets as far as the
  pipeline and the output stream opens), the value returned is the "had error" flag: in
  standard mode it is true exactly when a diagnostic of severity error was emitted during
  the run; in verification mode it is the verdict of \<^verbatim>\<open>verifyDiagnostics\<close> on the
  diagnostics that the verifier buffered, which replaces the flag of standard mode.
\<close>

theorem final_had_error:
  assumes "reachesPipeline env" and "\<not> raw_fd_ostream_fails env"
  shows "fst (main cl env) =
           Inr (of_bool (if VerifyMode cl
                         then verifyDiagnostics env (captured (snd (main cl env)))
                         else (\<exists>d \<in> set (Diags (snd (main cl env))). severity d = Error)))"
proof -
  obtain M where M: "loadedModule env = Some M"
    using assms(1) reaches_loaded by blast
  let ?w = "runSelected cl env M
              \<lparr> SILModule = Some M, Diags = snd (performSema env),
                Buffered = (if VerifyMode cl then Some [] else None),
                Trace = prologue cl env \<rparr>"
  obtain M' where M': "SILModule ?w = Some M'"
    using runSelected_SILModule [of cl env M "\<lparr> SILModule = Some M, Diags = snd (performSema env),
                Buffered = (if VerifyMode cl then Some [] else None),
                Trace = prologue cl env \<rparr>"]
    by (elim exE)
  have m: "main cl env = printAndReturn cl env ?w"
    using assms(1) M by (rule main_reaches)
  have "list_ex isError ds \<longleftrightarrow> (\<exists>d \<in> set ds. severity d = Error)" for ds
    by (simp add: list_ex_iff isError_def)
  then show ?thesis
    using printAndReturn_result(1) [OF assms(2) M', of cl]
    by (simp add: m printAndReturn_Diags printAndReturn_captured)
qed

theorem final_had_error_witness:
  "reachesPipeline exampleEnv \<and> \<not> raw_fd_ostream_fails exampleEnv \<and>
   VerifyMode verifyArguments \<and>
   Diags (snd (main verifyArguments exampleEnv)) = [uninitializedUse] \<and>
   captured (snd (main verifyArguments exampleEnv)) = [uninitializedUse] \<and>
   severity uninitializedUse = Error \<and>
   verifyDiagnostics exampleEnv [uninitializedUse] = False \<and>
   fst (main verifyArguments exampleEnv) = Inr 0 \<and>
   \<not> VerifyMode scenarioA \<and>
   Diags (snd (main scenarioA exampleEnv)) = [uninitializedUse] \<and>
   fst (main scenarioA exampleEnv) = Inr 1"
proof -
  have v: "VerifyMode verifyArguments"
    by (simp add: VerifyMode_def verifyArguments_def cl_opt_def)
  have n: "\<not> VerifyMode scenarioA"
    by (simp add: VerifyMode_def scenarioA_def noArguments_def cl_opt_def)
  have s: "severity uninitializedUse = Error"
    by (simp add: uninitializedUse_def)
  have e: "verifyDiagnostics exampleEnv = exampleVerifier"
    by (simp add: exampleEnv_def)
  show ?thesis
    using final_had_error [OF exampleEnv_reaches exampleEnv_opens, of verifyArguments]
      final_had_error [OF exampleEnv_reaches exampleEnv_opens, of scenarioA]
      exampleEnv_reaches exampleEnv_opens v n s e run_verifyArguments(2,3)
      run_scenarioA(3) exampleVerifier_accepts
    by simp
qed

text \<open>
  C4, as stated, fails: a run stopped by an error of semantic analysis returns 1 without
  handing the module to the printer.
\<close>

theorem sema_error_module_not_printed:
  "list_ex isError (snd (performSema semaErrorEnv)) \<and>
   fst (main noArguments semaErrorEnv) = Inr 1 \<and>
   filter isPrintEvent (Trace (snd (main noArguments semaErrorEnv))) = []"
  by (simp add: driver_defs noArguments_def semaErrorEnv_def exampleEnv_def uninitializedUse_def)

text \<open>
  C4, amended. On a run that gets as far as the pipeline and whose output stream opens,
  the module as the pipeline left it is handed to the printer, exactly once, whatever
  diagnostics the passes emitted and whatever value the run returns.
\<close>

theorem module_printed_after_pipeline:
  assumes "reachesPipeline env" and "\<not> raw_fd_ostream_fails env"
  shows "\<exists>M. SILModule (snd (main cl env)) = Some M \<and>
             filter isPrintEvent (Trace (snd (main cl env))) =
               [EvPrint M (EmitVerboseSIL cl) (EnableSILSortOutput cl)]"
proof -
  obtain M0 where M0: "loadedModule env = Some M0"
    using assms(1) reaches_loaded by blast
  let ?init = "\<lparr> SILModule = Some M0, Diags = snd (performSema env),
                   Buffered = (if VerifyMode cl then Some [] else None),
                   Trace = prologue cl env \<rparr>"
  let ?w = "runSelected cl env M0 ?init"
  obtain M where M: "SILModule ?w = Some M"
    using runSelected_SILModule [of cl env M0 ?init] by (elim exE)
  have m: "main cl env = printAndReturn cl env ?w"
    using assms(1) M0 by (rule main_reaches)
  have "filter isPrintEvent (Trace ?w) = []"
    by (simp add: runSelected_prints filter_print_prologue)
  then have "filter isPrintEvent (Trace (snd (main cl env))) =
               [EvPrint M (EmitVerboseSIL cl) (EnableSILSortOutput cl)]"
    using printAndReturn_result(2) [OF assms(2) M, of cl] by (simp add: m)
  moreover have "SILModule (snd (main cl env)) = Some M"
    by (simp add: m printAndReturn_SILModule M)
  ultimately show ?thesis by blast
qed

theorem module_printed_after_pipeline_witness:
  "reachesPipeline exampleEnv \<and> \<not> raw_fd_ostream_fails exampleEnv \<and>
   fst (main scenarioA exampleEnv) = Inr 1 \<and>
   SILModule (snd (main scenarioA exampleEnv)) = Some 2 \<and>
   filter isPrintEvent (Trace (snd (main scenarioA exampleEnv))) = [EvPrint 2 False False]"
proof -
  have "EmitVerboseSIL scenarioA = False" "EnableSILSortOutput scenarioA = False"
    by (simp_all add: EmitVerboseSIL_def EnableSILSortOutput_def scenarioA_def noArguments_def cl_opt_def)
  then show ?thesis
    using module_printed_after_pipeline [OF exampleEnv_reaches exampleEnv_opens, of scenarioA]
      exampleEnv_reaches exampleEnv_opens run_scenarioA
    by auto
qed

subsection \<open>The diagnostic verifier in the driver\<close>

text \<open>
  C7. A run in verification mode whose output file cannot be opened: the verifier is
  installed before the passes, the pass emits an error, and the driver returns 1 at
  line 505 without calling \<^verbatim>\<open>verifyDiagnostics\<close>; the captured diagnostic is never
  checked.
\<close>

theorem verifier_not_finalized_when_output_fails:
  "VerifyMode verifyArguments \<and> raw_fd_ostream_fails outputFailsEnv \<and>
   fst (main verifyArguments outputFailsEnv) = Inr 1 \<and>
   Trace (snd (main verifyArguments outputFailsEnv)) =
     [EvSetup, EvPerformSema, EvEnableDiagnosticVerifier,
      EvRegisterAnalysis createCallGraphAnalysis, EvRegisterAnalysis createAliasAnalysis,
      EvRegisterAnalysis createDominanceAnalysis, EvAdd createDefiniteInitialization,
      EvRun \<lparr> Mod = 0, Options = SILOpts verifyArguments,
              Analyses = [createCallGraphAnalysis, createAliasAnalysis, createDominanceAnalysis],
              Transformations = [createDefiniteInitialization] \<rparr>,
      EvOpenOutput False] \<and>
   EvVerifyDiagnostics \<notin> set (Trace (snd (main verifyArguments outputFailsEnv))) \<and>
   Buffered (snd (main verifyArguments outputFailsEnv)) = Some [uninitializedUse]"
  by (simp add: driver_defs noArguments_def verifyArguments_def outputFailsEnv_def exampleEnv_def examplePMRun_def)


subsection \<open>The configuration of the pipeline\<close>

text \<open>
  C9. Verification after each pass is on by default: when the caller does not give
  \<^verbatim>\<open>-enable-sil-verify-all\<close>, the options computed by \<^verbatim>\<open>main\<close> have
  \<^verbatim>\<open>VerifyAll\<close> set, and so do the options of every call that hands options to a
  pass manager or a preset pipeline.
\<close>

theorem verify_all_by_default:
  assumes "EnableSILVerifyAll_arg cl = None"
  shows "VerifyAll (SILOpts cl) \<and>
         (\<forall>e \<in> set (Trace (snd (main cl env))). \<forall>opts.
            handedOptions e = Some opts \<longrightarrow> VerifyAll opts)"
proof -
  have v: "VerifyAll (SILOpts cl)"
    using assms by (simp add: SILOpts_def EnableSILVerifyAll_def cl_opt_def)
  have "opts = SILOpts cl"
    if "e \<in> set (Trace (snd (main cl env)))" and "handedOptions e = Some opts" for e opts
  proof -
    have "opts \<in> set (List.map_filter handedOptions (Trace (snd (main cl env))))"
      using that by (force simp add: List.map_filter_def)
    then show ?thesis
      by (simp add: handedOptions_main split: if_splits)
  qed
  then show ?thesis using v by blast
qed

theorem verify_all_by_default_witness:
  "EnableSILVerifyAll_arg scenarioA = None \<and>
   EvRun \<lparr> Mod = 0, Options = SILOpts scenarioA,
           Analyses = [createCallGraphAnalysis, createAliasAnalysis, createDominanceAnalysis],
           Transformations = [createDefiniteInitialization, createEmitDFDiagnostics] \<rparr>
     \<in> set (Trace (snd (main scenarioA exampleEnv))) \<and>
   handedOptions
     (EvRun \<lparr> Mod = (0::nat), Options = SILOpts scenarioA,
           Analyses = [createCallGraphAnalysis, createAliasAnalysis, createDominanceAnalysis],
           Transformations = [createDefiniteInitialization, createEmitDFDiagnostics] \<rparr>) =
     Some (SILOpts scenarioA) \<and>
   VerifyAll (SILOpts scenarioA)"
proof -
  have a: "EnableSILVerifyAll_arg scenarioA = None"
    by (simp add: scenarioA_def noArguments_def)
  show ?thesis
    using verify_all_by_default [OF a, of exampleEnv] a
    by (simp add: run_scenarioA_trace)
qed

subsection \<open>The passes listed on the command line\<close>

text \<open>
  C6. The dispatch is total over the enumeration: for every value of \<^verbatim>\<open>PassKind\<close>
  exactly one case of the switch matches, and executing the switch adds the pass made by
  the factory of that case, no more and no less.
\<close>

theorem pass_dispatch_total:
  "\<exists>T. casesFor Pass = [T] \<and> switchPass Pass s = add T s"
proof -
  obtain T where "casesFor Pass = [T]" "map_of PassSwitch Pass = Some T"
    using PassSwitch_covers [of Pass] by blast
  then show ?thesis by (simp add: switchPass_def)
qed

text \<open>
  C10. A run of the explicit list registers exactly three analyses (call graph, alias,
  dominance, in this order), and all three registrations come before the first pass is
  added; the pass manager that is run holds exactly these three.
\<close>

theorem analyses_registered_before_passes:
  "\<exists>Ts PM. Trace (runCommandLineSelectedPasses env ps M opts w) =
             Trace w @
             [EvRegisterAnalysis createCallGraphAnalysis,
              EvRegisterAnalysis createAliasAnalysis,
              EvRegisterAnalysis createDominanceAnalysis] @
             map EvAdd Ts @ [EvRun PM] \<and>
           length Ts = length ps \<and>
           Analyses PM = [createCallGraphAnalysis, createAliasAnalysis,
                          createDominanceAnalysis]"
proof -
  obtain Ts where Ts: "map Some Ts = map (map_of PassSwitch) ps"
     "runCommandLineSelectedPasses env ps M opts w =
       (let PM = \<lparr> Mod = M, Options = opts,
              Analyses = [createCallGraphAnalysis, createAliasAnalysis,
                          createDominanceAnalysis],
              Transformations = Ts \<rparr> in
        \<lparr> SILModule = Some (fst (PM_run env PM)), Diags = Diags w @ snd (PM_run env PM),
          Buffered = map_option (\<lambda>ds. ds @ snd (PM_run env PM)) (Buffered w),
          Trace = Trace w @ analysisEvents @ map EvAdd Ts @ [EvRun PM] \<rparr>)"
    using runCommandLineSelectedPasses_spec [of ps env M opts w] by blast
  let ?PM = "\<lparr> Mod = M, Options = opts,
              Analyses = [createCallGraphAnalysis, createAliasAnalysis,
                          createDominanceAnalysis],
              Transformations = Ts \<rparr>"
  have "length Ts = length ps"
    using Ts(1) by (metis length_map)
  then show ?thesis
    using Ts(2) by (intro exI [of _ Ts] exI [of _ ?PM]) (simp add: Let_def analysisEvents_def)
qed


text \<open>
  C5. The passes handed to the pass manager are exactly those of the explicit list: one
  pass per listed identifier, in the order of the list, the pass at position \<open>i\<close> being
  the one that the switch makes for the identifier at position \<open>i\<close>; the pass manager
  so built is the one that is run. With an empty list no pass is added and the pass
  manager is run on an empty sequence.
\<close>

theorem explicit_list_in_order:
  "(\<exists>PM. Trace (runCommandLineSelectedPasses env ps M opts w) =
           Trace w @ analysisEvents @ map EvAdd (Transformations PM) @ [EvRun PM] \<and>
         SILModule (runCommandLineSelectedPasses env ps M opts w) = Some (fst (PM_run env PM)) \<and>
         Mod PM = M \<and>
         map Some (Transformations PM) = map (map_of PassSwitch) ps \<and>
         length (Transformations PM) = length ps \<and>
         (\<forall>i < length ps. map_of PassSwitch (ps ! i) = Some (Transformations PM ! i))) \<and>
   Trace (runCommandLineSelectedPasses env [] M opts w) =
     Trace w @ analysisEvents @
     [EvRun \<lparr> Mod = M, Options = opts,
              Analyses = [createCallGraphAnalysis, createAliasAnalysis,
                          createDominanceAnalysis],
              Transformations = [] \<rparr>]"
proof -
  obtain Ts where Ts: "map Some Ts = map (map_of PassSwitch) ps"
     "runCommandLineSelectedPasses env ps M opts w =
       (let PM = \<lparr> Mod = M, Options = opts,
              Analyses = [createCallGraphAnalysis, createAliasAnalysis,
                          createDominanceAnalysis],
              Transformations = Ts \<rparr> in
        \<lparr> SILModule = Some (fst (PM_run env PM)), Diags = Diags w @ snd (PM_run env PM),
          Buffered = map_option (\<lambda>ds. ds @ snd (PM_run env PM)) (Buffered w),
          Trace = Trace w @ analysisEvents @ map EvAdd Ts @ [EvRun PM] \<rparr>)"
    using runCommandLineSelectedPasses_spec [of ps env M opts w] by blast
  let ?PM = "\<lparr> Mod = M, Options = opts,
              Analyses = [createCallGraphAnalysis, createAliasAnalysis,
                          createDominanceAnalysis],
              Transformations = Ts \<rparr>"
  have len: "length Ts = length ps"
    using Ts(1) by (metis length_map)
  have nth: "map_of PassSwitch (ps ! i) = Some (Ts ! i)" if "i < length ps" for i
  proof -
    have "map Some Ts ! i = map (map_of PassSwitch) ps ! i"
      using Ts(1) by simp
    then show ?thesis using that len by simp
  qed
  have "Trace (runCommandLineSelectedPasses env ps M opts w) =
           Trace w @ analysisEvents @ map EvAdd (Transformations ?PM) @ [EvRun ?PM]"
    using Ts(2) by (simp add: Let_def)
  moreover have "SILModule (runCommandLineSelectedPasses env ps M opts w) =
      Some (fst (PM_run env ?PM))"
    using Ts(2) by (simp add: Let_def)
  moreover have "map Some (Transformations ?PM) = map (map_of PassSwitch) ps"
    using Ts(1) by simp
  ultimately have first: "\<exists>PM. Trace (runCommandLineSelectedPasses env ps M opts w) =
           Trace w @ analysisEvents @ map EvAdd (Transformations PM) @ [EvRun PM] \<and>
         SILModule (runCommandLineSelectedPasses env ps M opts w) = Some (fst (PM_run env PM)) \<and>
         Mod PM = M \<and>
         map Some (Transformations PM) = map (map_of PassSwitch) ps \<and>
         length (Transformations PM) = length ps \<and>
         (\<forall>i < length ps. map_of PassSwitch (ps ! i) = Some (Transformations PM ! i))"
    using len nth by (intro exI [of _ ?PM]) simp
  have second: "Trace (runCommandLineSelectedPasses env [] M opts w) =
     Trace w @ analysisEvents @
     [EvRun \<lparr> Mod = M, Options = opts,
              Analyses = [createCallGraphAnalysis, createAliasAnalysis,
                          createDominanceAnalysis],
              Transformations = [] \<rparr>]"
    by (simp add: runCommandLineSelectedPasses_def buildPassManager_def registerAnalysis_def
        SILPassManager_new_def afterPipeline_def analysisEvents_def)
  show ?thesis using first second by (rule conjI)
qed

theorem explicit_list_in_order_witness:
  "(1::nat) < length (Passes scenarioA) \<and>
   map_of PassSwitch (Passes scenarioA ! 1) = Some createEmitDFDiagnostics \<and>
   (\<exists>PM. Trace (runCommandLineSelectedPasses exampleEnv (Passes scenarioA) 0 (SILOpts scenarioA)
                  startWorld) =
           Trace startWorld @ analysisEvents @ map EvAdd (Transformations PM) @ [EvRun PM] \<and>
         Transformations PM = [createDefiniteInitialization, createEmitDFDiagnostics])"
proof -
  have ps: "Passes scenarioA = [DefiniteInit, DataflowDiagnostics]"
    by (simp add: scenarioA_def)
  obtain PM where PM:
    "Trace (runCommandLineSelectedPasses exampleEnv (Passes scenarioA) 0 (SILOpts scenarioA)
              startWorld) =
       Trace startWorld @ analysisEvents @ map EvAdd (Transformations PM) @ [EvRun PM]"
    "map Some (Transformations PM) = map (map_of PassSwitch) (Passes scenarioA)"
    using explicit_list_in_order [of exampleEnv "Passes scenarioA" 0 "SILOpts scenarioA" startWorld]
    by blast
  have "map Some (Transformations PM) =
          map Some [createDefiniteInitialization, createEmitDFDiagnostics]"
    using PM(2) by (simp add: ps PassSwitch_def)
  then have "Transformations PM = [createDefiniteInitialization, createEmitDFDiagnostics]"
    by (simp only: inj_map_eq_map [OF inj_Some])
  moreover have "map_of PassSwitch (Passes scenarioA ! 1) = Some createEmitDFDiagnostics"
    by (simp add: ps PassSwitch_def)
  ultimately show ?thesis using PM(1) by (auto simp add: ps)
qed

subsection \<open>The verdict of the diagnostic verifier\<close>

text \<open>
  C8. Verification succeeds exactly when every expected entry is matched by exactly one
  actual diagnostic (of the same severity, at the same location, with a message that
  satisfies the pattern) and every actual diagnostic matches some expected entry. The
  failures reported are the expected entries for which this fails, each as an
  \<open>UnmatchedExpected\<close>, followed by the actual diagnostics that match no entry, each
  as an \<open>UnmatchedActual\<close>: one failure per item, the two kinds kept apart.
\<close>

theorem verify_two_sided:
  "(verify sat actual expected \<longleftrightarrow>
      (\<forall>e \<in> set expected. \<exists>!i. i < length actual \<and> matches sat (actual ! i) e) \<and>
      (\<forall>a \<in> set actual. \<exists>e \<in> set expected. matches sat a e)) \<and>
   verificationFailures sat actual expected =
      map UnmatchedExpected
        (filter (\<lambda>e. \<not> (\<exists>!i. i < length actual \<and> matches sat (actual ! i) e)) expected) @
      map UnmatchedActual
        (filter (\<lambda>a. \<not> (\<exists>e \<in> set expected. matches sat a e)) actual) \<and>
   length (verificationFailures sat actual expected) =
      length (unmatchedExpected sat actual expected) +
      length (unmatchedActual sat actual expected)"
proof -
  have v: "verify sat actual expected \<longleftrightarrow>
      (\<forall>e \<in> set expected. \<exists>!i. i < length actual \<and> matches sat (actual ! i) e) \<and>
      (\<forall>a \<in> set actual. \<exists>e \<in> set expected. matches sat a e)"
    by (simp add: verify_def verificationFailures_def unmatchedExpected_empty
        unmatchedActual_empty)
  have f: "verificationFailures sat actual expected =
      map UnmatchedExpected
        (filter (\<lambda>e. \<not> (\<exists>!i. i < length actual \<and> matches sat (actual ! i) e)) expected) @
      map UnmatchedActual
        (filter (\<lambda>a. \<not> (\<exists>e \<in> set expected. matches sat a e)) actual)"
    by (simp add: verificationFailures_def unmatchedExpected_def unmatchedActual_def
        matchCount_def count_one_iff list_ex_iff)
  have l: "length (verificationFailures sat actual expected) =
      length (unmatchedExpected sat actual expected) +
      length (unmatchedActual sat actual expected)"
    by (simp add: verificationFailures_def)
  show ?thesis using v f l by blast
qed

theorem verify_two_sided_witness:
  "verify occursIn [uninitializedUse] [expectUninitialized] \<and>
   (\<exists>!i. i < length [uninitializedUse] \<and>
          matches occursIn ([uninitializedUse] ! i) expectUninitialized) \<and>
   (\<exists>e \<in> set [expectUninitialized]. matches occursIn uninitializedUse e) \<and>
   \<not> verify occursIn [uninitializedUse] ([] :: string ExpectedDiagnostic list) \<and>
   verificationFailures occursIn [uninitializedUse] ([] :: string ExpectedDiagnostic list) =
     [UnmatchedActual uninitializedUse] \<and>
   \<not> verify occursIn [uninitializedUse, uninitializedUse] [expectUninitialized] \<and>
   verificationFailures occursIn [uninitializedUse, uninitializedUse] [expectUninitialized] =
     [UnmatchedExpected expectUninitialized]"
proof -
  have a: "verify occursIn [uninitializedUse] [expectUninitialized]"
    by (simp add: verifier_defs)
  have b: "\<not> verify occursIn [uninitializedUse] ([] :: string ExpectedDiagnostic list)"
    "verificationFailures occursIn [uninitializedUse] ([] :: string ExpectedDiagnostic list) =
       [UnmatchedActual uninitializedUse]"
    by (simp_all add: verifier_defs)
  have c: "\<not> verify occursIn [uninitializedUse, uninitializedUse] [expectUninitialized]"
    "verificationFailures occursIn [uninitializedUse, uninitializedUse] [expectUninitialized] =
       [UnmatchedExpected expectUninitialized]"
    by (simp_all add: verifier_defs)
  have two:
    "(\<forall>e \<in> set [expectUninitialized].
        \<exists>!i. i < length [uninitializedUse] \<and> matches occursIn ([uninitializedUse] ! i) e) \<and>
     (\<forall>a \<in> set [uninitializedUse]. \<exists>e \<in> set [expectUninitialized]. matches occursIn a e)"
    using verify_two_sided [of occursIn "[uninitializedUse]" "[expectUninitialized]"] a
    by blast
  have d: "\<exists>!i. i < length [uninitializedUse] \<and>
             matches occursIn ([uninitializedUse] ! i) expectUninitialized"
    using two by simp
  have e: "\<exists>e \<in> set [expectUninitialized]. matches occursIn uninitializedUse e"
    using two by simp
  show ?thesis
    using a b c d e by blast
qed

end
